theory Spec2Isabelle
  imports Main "HOL-Library.Word" "HOL-Library.Sublist"
begin

section \<open>The contact-form mail relay of \<open>routes/email.js\<close>\<close>

text \<open>
  The development embeds the first handler of \<open>src/routes/email.js\<close> (lines 1 to 300, the
  SMTP relay with sanitising, rate limiting and a send timeout): its helpers
  \<open>escapeHtml\<close>, \<open>validateEmail\<close>, \<open>sanitizeInput\<close>, \<open>getTransporter\<close>,
  \<open>checkRateLimit\<close> and the \<open>POST /send-email\<close> handler.
\<close>

subsection \<open>JavaScript strings\<close>

text \<open>
  A JavaScript string is a sequence of UTF-16 code units; \<open>length\<close>, \<open>substring\<close>,
  \<open>trim\<close> and a regular expression without the \<open>u\<close> flag all work on code units.
\<close>

type_synonym cu = "16 word"
type_synonym jsstring = "cu list"

text \<open>The code units of an ASCII literal of the source.\<close>

definition js :: "string \<Rightarrow> jsstring" where
  "js s = map (\<lambda>c. word_of_nat (of_char c)) s"

text \<open>
  A value read from the parsed request body: a string, or anything else
  (\<open>undefined\<close>, \<open>null\<close>, a number, an object, ...), for which
  \<open>typeof v !== 'string'\<close>.
\<close>

datatype jsval = JStr jsstring | JOther

text \<open>
  ECMAScript's WhiteSpace and LineTerminator code units: the set that
  \<open>String.prototype.trim\<close> strips and that \<open>\s\<close> matches.
\<close>

definition isWhiteSpace :: "cu \<Rightarrow> bool" where
  "isWhiteSpace c = (c \<in> set [0x9, 0xA, 0xB, 0xC, 0xD, 0x20, 0xA0, 0x1680,
      0x2000, 0x2001, 0x2002, 0x2003, 0x2004, 0x2005, 0x2006, 0x2007, 0x2008, 0x2009, 0x200A,
      0x2028, 0x2029, 0x202F, 0x205F, 0x3000, 0xFEFF])"

definition trimStart :: "jsstring \<Rightarrow> jsstring" where
  "trimStart s = dropWhile isWhiteSpace s"

definition trimEnd :: "jsstring \<Rightarrow> jsstring" where
  "trimEnd s = rev (dropWhile isWhiteSpace (rev s))"

definition trim :: "jsstring \<Rightarrow> jsstring" where
  "trim s = trimEnd (trimStart s)"

text \<open>\<open>s.substring(0, n)\<close> for a non-negative \<open>n\<close>.\<close>

definition substring0 :: "nat \<Rightarrow> jsstring \<Rightarrow> jsstring" where
  "substring0 n s = take n s"

text \<open>
  \<open>String.prototype.toLowerCase\<close> is a builtin whose Unicode case tables are not part of
  the repository; the functions that call it take it as the parameter \<open>toLower\<close>.
  \<open>asciiLower\<close> is the instance used on concrete inputs: it agrees with the builtin on
  every string of ASCII code units.
\<close>

definition asciiLower :: "jsstring \<Rightarrow> jsstring" where
  "asciiLower s = map (\<lambda>c. if 0x41 \<le> c \<and> c \<le> 0x5A then c + 0x20 else c) s"

subsection \<open>\<open>escapeHtml\<close>\<close>

text \<open>
  \<^verbatim>\<open>text.replace(/[&<>"']/g, (m) => map[m])\<close>: every code unit of the class is
  replaced by its entry in \<open>map\<close>; a property missing from an object reads as
  \<open>undefined\<close>, which \<open>replace\<close> would insert as the text \<open>undefined\<close>.
\<close>

definition htmlMap :: "(cu \<times> jsstring) list" where
  "htmlMap = [(0x26, js ''&amp;''), (0x3C, js ''&lt;''), (0x3E, js ''&gt;''),
              (0x22, js ''&quot;''), (0x27, js ''&#039;'')]"

definition htmlClass :: "cu \<Rightarrow> bool" where
  "htmlClass c = (c \<in> set [0x26, 0x3C, 0x3E, 0x22, 0x27])"

definition replaceAll :: "(cu \<Rightarrow> bool) \<Rightarrow> (cu \<Rightarrow> jsstring) \<Rightarrow> jsstring \<Rightarrow> jsstring" where
  "replaceAll cls f s = concat (map (\<lambda>c. if cls c then f c else [c]) s)"

definition escapeHtml :: "jsstring \<Rightarrow> jsstring" where
  "escapeHtml text =
     replaceAll htmlClass
       (\<lambda>m. case map_of htmlMap m of Some e \<Rightarrow> e | None \<Rightarrow> js ''undefined'') text"

subsection \<open>Regular expressions\<close>

text \<open>
  The fragment of regular expressions that \<open>emailRegex\<close> needs, matched by derivatives.
  \<open>test\<close> on a pattern anchored by \<open>^\<close> and \<open>$\<close> (no \<open>m\<close> flag) asks whether the
  whole string is in the language of the pattern.
\<close>

datatype rx = Zero | One | Cls "cu \<Rightarrow> bool" | Alt rx rx | Seq rx rx | Star rx

definition Plus :: "rx \<Rightarrow> rx" where
  "Plus r = Seq r (Star r)"

primrec nullable :: "rx \<Rightarrow> bool" where
  "nullable Zero = False"
| "nullable One = True"
| "nullable (Cls P) = False"
| "nullable (Alt r s) = (nullable r \<or> nullable s)"
| "nullable (Seq r s) = (nullable r \<and> nullable s)"
| "nullable (Star r) = True"

primrec deriv :: "cu \<Rightarrow> rx \<Rightarrow> rx" where
  "deriv c Zero = Zero"
| "deriv c One = Zero"
| "deriv c (Cls P) = (if P c then One else Zero)"
| "deriv c (Alt r s) = Alt (deriv c r) (deriv c s)"
| "deriv c (Seq r s) =
     (if nullable r then Alt (Seq (deriv c r) s) (deriv c s) else Seq (deriv c r) s)"
| "deriv c (Star r) = Seq (deriv c r) (Star r)"

definition test :: "rx \<Rightarrow> jsstring \<Rightarrow> bool" where
  "test r s = nullable (fold deriv s r)"

subsection \<open>\<open>validateEmail\<close> and \<open>sanitizeInput\<close>\<close>

text \<open>\<^verbatim>\<open>[^\s@]\<close>\<close>

definition notSpaceAt :: "cu \<Rightarrow> bool" where
  "notSpaceAt c = (\<not> isWhiteSpace c \<and> c \<noteq> 0x40)"

text \<open>\<^verbatim>\<open>/^[^\s@]+@[^\s@]+\.[^\s@]+$/\<close>\<close>

definition emailRegex :: rx where
  "emailRegex =
     Seq (Plus (Cls notSpaceAt))
       (Seq (Cls (\<lambda>c. c = 0x40))
         (Seq (Plus (Cls notSpaceAt))
           (Seq (Cls (\<lambda>c. c = 0x2E)) (Plus (Cls notSpaceAt)))))"

fun validateEmail :: "(jsstring \<Rightarrow> jsstring) \<Rightarrow> jsval \<Rightarrow> bool" where
  "validateEmail toLower JOther = False"
| "validateEmail toLower (JStr email) =
     (if email = [] then False
      else let trimmedEmail = toLower (trim email)
           in test emailRegex trimmedEmail \<and> length trimmedEmail \<le> 254)"

fun sanitizeInput :: "jsval \<Rightarrow> jsstring" where
  "sanitizeInput JOther = []"
| "sanitizeInput (JStr input) = substring0 5000 (trim input)"

subsection \<open>The environment, the transporter and the rate limiter\<close>

text \<open>\<open>process.env\<close>: a variable is a string or is not set.\<close>

record env =
  GMAIL_EMAIL :: "jsstring option"
  GMAIL_PASSWORD :: "jsstring option"
  NODE_ENV :: "jsstring option"

text \<open>\<open>!v\<close> for a variable of the environment: not set, or the empty string.\<close>

definition falsy :: "jsstring option \<Rightarrow> bool" where
  "falsy v = (case v of None \<Rightarrow> True | Some s \<Rightarrow> s = [])"

text \<open>A thrown \<open>Error\<close>: its \<open>code\<close> property (\<open>undefined\<close> when absent) and message.\<close>

record js_error =
  code :: "jsstring option"
  errmsg :: jsstring

text \<open>The cached nodemailer transport; only its credentials differ from call to call.\<close>

record transport =
  user :: jsstring
  pass :: jsstring

text \<open>
  The module's mutable state: \<open>rateLimitMap\<close>, a \<open>Map\<close> from client identifier to the
  array of request times in milliseconds, and the \<open>transporter\<close> variable.
\<close>

record server =
  rateLimitMap :: "jsstring \<rightharpoonup> int list"
  transporter :: "transport option"

definition getTransporter :: "env \<Rightarrow> server \<Rightarrow> js_error + transport \<times> server" where
  "getTransporter e srv =
     (case transporter srv of
        Some t \<Rightarrow> Inr (t, srv)
      | None \<Rightarrow>
          (case (GMAIL_EMAIL e, GMAIL_PASSWORD e) of
             (Some u, Some p) \<Rightarrow>
               if u = [] \<or> p = []
               then Inl \<lparr>code = None,
                         errmsg = js ''Missing Gmail credentials in environment variables''\<rparr>
               else let t = \<lparr>user = u, pass = p\<rparr>
                    in Inr (t, srv\<lparr>transporter := Some t\<rparr>)
           | _ \<Rightarrow> Inl \<lparr>code = None,
                        errmsg = js ''Missing Gmail credentials in environment variables''\<rparr>))"

text \<open>
  \<open>checkRateLimit\<close> reads the clock once (\<open>now\<close>) and returns its verdict with the
  map as it leaves it. After the \<open>set\<close> of line 76 the \<open>get\<close> of line 79 always finds
  the key.
\<close>

definition checkRateLimit ::
  "(jsstring \<rightharpoonup> int list) \<Rightarrow> int \<Rightarrow> jsstring \<Rightarrow> int \<Rightarrow> int \<Rightarrow> bool \<times> (jsstring \<rightharpoonup> int list)"
where
  "checkRateLimit m now identifier maxRequests windowMs =
     (let m1 = (if m identifier = None then m(identifier \<mapsto> []) else m);
          requests = (case m1 identifier of Some r \<Rightarrow> r | None \<Rightarrow> []);
          recentRequests = filter (\<lambda>time. now - time < windowMs) requests
      in if maxRequests \<le> int (length recentRequests) then (False, m1)
         else (True, m1(identifier \<mapsto> recentRequests @ [now])))"

subsection \<open>The message handed to the transport\<close>

record mail =
  from_addr :: "jsstring option"
  to_addr :: "jsstring option"
  replyTo :: jsstring
  subject :: jsstring
  html :: jsstring
  text_body :: jsstring

text \<open>Template literals are written line by line; \<open>joinLines\<close> puts the line feeds back.\<close>

fun joinLines :: "jsstring list \<Rightarrow> jsstring" where
  "joinLines [] = []"
| "joinLines [l] = l"
| "joinLines (l # ls) = l @ [0xA] @ joinLines ls"

text \<open>An opening tag with a \<open>style\<close> attribute in double quotes.\<close>

definition styled :: "string \<Rightarrow> string \<Rightarrow> jsstring" where
  "styled tag css = js ''<'' @ js tag @ js '' style='' @ [0x22] @ js css @ [0x22] @ js ''>''"

definition htmlBody :: "jsstring \<Rightarrow> jsstring \<Rightarrow> jsstring \<Rightarrow> jsstring \<Rightarrow> jsstring" where
  "htmlBody escapedName escapedEmail escapedMessage sentOn = joinLines
     [[],
      js ''        '' @ styled ''div''
        ''font-family: Arial, sans-serif; max-width: 600px; margin: 0 auto;'',
      js ''          '' @ styled ''h2''
        ''color: #333; border-bottom: 2px solid #0066cc; padding-bottom: 10px;'',
      js ''            New Message from Portfolio Contact Form'',
      js ''          </h2>'',
      js ''          '' @ styled ''div'' ''margin: 20px 0;'',
      js ''            '' @ styled ''p'' ''margin: 10px 0;'',
      js ''              '' @ styled ''strong'' ''color: #333;'' @ js ''Name:</strong> '',
      js ''              '' @ styled ''span'' ''color: #666;'' @ escapedName @ js ''</span>'',
      js ''            </p>'',
      js ''            '' @ styled ''p'' ''margin: 10px 0;'',
      js ''              '' @ styled ''strong'' ''color: #333;'' @ js ''Email:</strong> '',
      js ''              '' @ styled ''span'' ''color: #666;'' @ escapedEmail @ js ''</span>'',
      js ''            </p>'',
      js ''            '' @ styled ''p'' ''margin: 10px 0;'',
      js ''              '' @ styled ''strong'' ''color: #333;'' @ js ''Message:</strong>'',
      js ''            </p>'',
      js ''            '' @ styled ''div''
        ''background-color: #f5f5f5; padding: 15px; border-left: 4px solid #0066cc; margin: 10px 0; color: #333;'',
      js ''              '' @ escapedMessage,
      js ''            </div>'',
      js ''          </div>'',
      js ''          '' @ styled ''hr''
        ''border: none; border-top: 1px solid #ddd; margin: 20px 0;'',
      js ''          '' @ styled ''p'' ''color: #999; font-size: 12px; margin-top: 20px;'',
      js ''            This message was sent from your portfolio contact form. '',
      js ''            <br>Sent on '' @ sentOn,
      js ''          </p>'',
      js ''        </div>'',
      js ''      '']"

definition textBody :: "jsstring \<Rightarrow> jsstring \<Rightarrow> jsstring \<Rightarrow> jsstring \<Rightarrow> jsstring" where
  "textBody name email message sentOn = joinLines
     [[],
      js ''Name: '' @ name,
      js ''Email: '' @ email,
      [],
      js ''Message:'',
      message,
      [],
      js ''---'',
      js ''This message was sent from your portfolio contact form.'',
      js ''Sent on '' @ sentOn,
      js ''      '']"

text \<open>
  Lines 202 to 250. \<open>sentOnHtml\<close> and \<open>sentOnText\<close> are the two results of
  \<open>new Date().toLocaleString()\<close>.
\<close>

definition mailOptions ::
  "env \<Rightarrow> jsstring \<Rightarrow> jsstring \<Rightarrow> jsstring \<Rightarrow> jsstring \<Rightarrow> jsstring \<Rightarrow> mail" where
  "mailOptions e name email message sentOnHtml sentOnText =
     (let escapedName = escapeHtml name;
          escapedEmail = escapeHtml email;
          escapedMessage = replaceAll (\<lambda>c. c = 0xA) (\<lambda>m. js ''<br>'') (escapeHtml message)
      in \<lparr>from_addr = GMAIL_EMAIL e,
          to_addr = GMAIL_EMAIL e,
          replyTo = email,
          subject = js ''New Portfolio Contact from '' @ escapedName,
          html = htmlBody escapedName escapedEmail escapedMessage sentOnHtml,
          text_body = textBody name email message sentOnText\<rparr>)"

subsection \<open>The \<open>POST /send-email\<close> handler\<close>

text \<open>
  What \<open>express.json\<close> hands over: the parsed body with its three properties, or
  \<open>None\<close> when \<open>req.body\<close> is missing or not an object.
\<close>

record form =
  name_field :: jsval
  email_field :: jsval
  message_field :: jsval

record request =
  ip :: "jsstring option"
  remoteAddress :: "jsstring option"
  body :: "form option"

text \<open>The JSON answer: the status, and the \<open>error\<close> property when it is defined.\<close>

record response =
  status :: nat
  success :: bool
  message :: jsstring
  error :: "jsstring option"

text \<open>
  How \<open>sendMail\<close> settles while the 30000 ms timer of the race runs: it resolves, it
  rejects with an error, or it is still pending when the timer fires.
\<close>

datatype settled = Delivered | Rejected js_error | Pending

definition race :: "settled \<Rightarrow> js_error + unit" where
  "race s =
     (case s of
        Delivered \<Rightarrow> Inr ()
      | Rejected err \<Rightarrow> Inl err
      | Pending \<Rightarrow> Inl \<lparr>code = None, errmsg = js ''Email send timeout''\<rparr>)"

text \<open>The eight rejections of the validation block (lines 125 to 179) and their messages.\<close>

datatype validation_error =
    NameRequired | EmailRequired | NameTooShort | NameTooLong
  | EmailInvalid | MessageRequired | MessageTooShort | MessageTooLong

fun reason :: "validation_error \<Rightarrow> jsstring" where
  "reason NameRequired = js ''Name is required''"
| "reason EmailRequired = js ''Email is required''"
| "reason NameTooShort = js ''Name must be at least 2 characters long''"
| "reason NameTooLong = js ''Name must be less than 100 characters''"
| "reason EmailInvalid = js ''Please provide a valid email address''"
| "reason MessageRequired = js ''Message is required''"
| "reason MessageTooShort = js ''Message must be at least 10 characters long''"
| "reason MessageTooLong = js ''Message must be less than 5000 characters''"

definition validation ::
  "(jsstring \<Rightarrow> jsstring) \<Rightarrow> jsstring \<Rightarrow> jsstring \<Rightarrow> jsstring \<Rightarrow> validation_error option" where
  "validation toLower name email msg =
     (if name = [] then Some NameRequired
      else if email = [] then Some EmailRequired
      else if length name < 2 then Some NameTooShort
      else if length name > 100 then Some NameTooLong
      else if \<not> validateEmail toLower (JStr email) then Some EmailInvalid
      else if msg = [] then Some MessageRequired
      else if length msg < 10 then Some MessageTooShort
      else if length msg > 5000 then Some MessageTooLong
      else None)"

text \<open>Lines 120 to 122: the three fields as the checks and the mail see them.\<close>

definition cleanName :: "form \<Rightarrow> jsstring" where
  "cleanName b = trim (sanitizeInput (name_field b))"

definition cleanEmail :: "(jsstring \<Rightarrow> jsstring) \<Rightarrow> form \<Rightarrow> jsstring" where
  "cleanEmail toLower b = toLower (trim (sanitizeInput (email_field b)))"

definition cleanMessage :: "form \<Rightarrow> jsstring" where
  "cleanMessage b = trim (sanitizeInput (message_field b))"

text \<open>\<^verbatim>\<open>req.ip || req.connection.remoteAddress || 'unknown'\<close>\<close>

definition clientIP :: "request \<Rightarrow> jsstring" where
  "clientIP req =
     (case ip req of
        Some a \<Rightarrow> if a \<noteq> [] then a
                  else (case remoteAddress req of
                          Some r \<Rightarrow> if r \<noteq> [] then r else js ''unknown''
                        | None \<Rightarrow> js ''unknown'')
      | None \<Rightarrow> (case remoteAddress req of
                   Some r \<Rightarrow> if r \<noteq> [] then r else js ''unknown''
                 | None \<Rightarrow> js ''unknown''))"

definition isDev :: "env \<Rightarrow> bool" where
  "isDev e = (NODE_ENV e = Some (js ''development''))"

text \<open>The \<open>catch\<close> block, lines 267 to 297.\<close>

definition catchError :: "env \<Rightarrow> js_error \<Rightarrow> response" where
  "catchError e err =
     (let details = (if isDev e then Some (errmsg err) else None)
      in if code err = Some (js ''EAUTH'')
         then \<lparr>status = 500, success = False,
               message = js ''Authentication error. Please check Gmail credentials.'',
               error = details\<rparr>
         else if code err = Some (js ''ECONNREFUSED'') \<or> code err = Some (js ''ETIMEDOUT'')
         then \<lparr>status = 503, success = False,
               message = js ''Service temporarily unavailable. Please try again later.'',
               error = details\<rparr>
         else \<lparr>status = 500, success = False,
               message = js ''Failed to send email. Please try again later.'',
               error = details\<rparr>)"

definition badRequest :: "jsstring \<Rightarrow> response" where
  "badRequest m = \<lparr>status = 400, success = False, message = m, error = None\<rparr>"

text \<open>
  One run of the handler: the answer, the module state it leaves, and the message given to
  \<open>sendMail\<close> when the run got that far. \<open>now\<close> is the clock read by
  \<open>checkRateLimit\<close>; \<open>sendResult\<close> is how the transport settles. The run is one
  step: what other requests and the periodic sweep of lines 92 to 102 do to the state while
  this run awaits the send is not part of it.
\<close>

record handled =
  res :: response
  after :: server
  sentMail :: "mail option"

definition handler ::
  "(jsstring \<Rightarrow> jsstring) \<Rightarrow> env \<Rightarrow> server \<Rightarrow> request \<Rightarrow> int \<Rightarrow> jsstring \<Rightarrow> jsstring
     \<Rightarrow> settled \<Rightarrow> handled" where
  "handler toLower e srv req now sentOnHtml sentOnText sendResult =
     (case body req of
        None \<Rightarrow>
          \<lparr>res = badRequest (js ''Request body must be valid JSON''), after = srv,
           sentMail = None\<rparr>
      | Some b \<Rightarrow>
          let name = cleanName b; email = cleanEmail toLower b; msg = cleanMessage b
          in (case validation toLower name email msg of
                Some v \<Rightarrow> \<lparr>res = badRequest (reason v), after = srv, sentMail = None\<rparr>
              | None \<Rightarrow>
                  let (allowed, m) = checkRateLimit (rateLimitMap srv) now (clientIP req) 5 3600000;
                      srv1 = srv\<lparr>rateLimitMap := m\<rparr>
                  in if \<not> allowed
                     then \<lparr>res = \<lparr>status = 429, success = False,
                                  message = js ''Too many requests. Please try again later.'',
                                  error = None\<rparr>,
                           after = srv1, sentMail = None\<rparr>
                     else if falsy (GMAIL_EMAIL e) \<or> falsy (GMAIL_PASSWORD e)
                     then \<lparr>res = \<lparr>status = 500, success = False,
                                  message = js ''Server configuration error. Please try again later.'',
                                  error = None\<rparr>,
                           after = srv1, sentMail = None\<rparr>
                     else (case getTransporter e srv1 of
                             Inl err \<Rightarrow> \<lparr>res = catchError e err, after = srv1, sentMail = None\<rparr>
                           | Inr (emailTransporter, srv2) \<Rightarrow>
                               let mailOpts = mailOptions e name email msg sentOnHtml sentOnText
                               in (case race sendResult of
                                     Inl err \<Rightarrow>
                                       \<lparr>res = catchError e err, after = srv2,
                                        sentMail = Some mailOpts\<rparr>
                                   | Inr u \<Rightarrow>
                                       \<lparr>res = \<lparr>status = 200, success = True,
                                               message = js ''Email sent successfully! I will get back to you soon.'',
                                               error = None\<rparr>,
                                        after = srv2, sentMail = Some mailOpts\<rparr>))))"

section \<open>What the specification says, in the terms of the model\<close>

subsection \<open>The language of a regular expression and the shape of an address\<close>

definition conc :: "jsstring set \<Rightarrow> jsstring set \<Rightarrow> jsstring set" where
  "conc A B = {a @ b | a b. a \<in> A \<and> b \<in> B}"

inductive_set star :: "jsstring set \<Rightarrow> jsstring set" for A :: "jsstring set" where
  star_nil: "[] \<in> star A"
| star_app: "a \<in> A \<Longrightarrow> w \<in> star A \<Longrightarrow> a @ w \<in> star A"

primrec lang :: "rx \<Rightarrow> jsstring set" where
  "lang Zero = {}"
| "lang One = {[]}"
| "lang (Cls P) = {[c] | c. P c}"
| "lang (Alt r s) = lang r \<union> lang s"
| "lang (Seq r s) = conc (lang r) (lang s)"
| "lang (Star r) = star (lang r)"

text \<open>
  The shape of the specification: one or more code units that are neither white space nor
  \<open>@\<close>, then \<open>@\<close>, then one or more such code units, then a dot, then one or more such
  code units.
\<close>

definition emailShape :: "jsstring \<Rightarrow> bool" where
  "emailShape s =
     (\<exists>a b c. s = a @ [0x40] @ b @ [0x2E] @ c \<and> a \<noteq> [] \<and> b \<noteq> [] \<and> c \<noteq> [] \<and>
        (\<forall>x \<in> set (a @ b @ c). \<not> isWhiteSpace x \<and> x \<noteq> 0x40))"

subsection \<open>Checks in an order\<close>

text \<open>The error of the first check of a list that fails, if one does.\<close>

definition firstFailing :: "(bool \<times> validation_error) list \<Rightarrow> validation_error option" where
  "firstFailing cs = map_option snd (find fst cs)"

text \<open>
  The order of the specification: name presence, name length, email presence, email
  format, message presence, message length.
\<close>

definition claimedOrder ::
  "(jsstring \<Rightarrow> jsstring) \<Rightarrow> jsstring \<Rightarrow> jsstring \<Rightarrow> jsstring \<Rightarrow> (bool \<times> validation_error) list" where
  "claimedOrder toLower name email msg =
     [(name = [], NameRequired),
      (length name < 2, NameTooShort), (length name > 100, NameTooLong),
      (email = [], EmailRequired),
      (\<not> validateEmail toLower (JStr email), EmailInvalid),
      (msg = [], MessageRequired),
      (length msg < 10, MessageTooShort), (length msg > 5000, MessageTooLong)]"

text \<open>
  The order of the handler: name presence, email presence, name length, email format,
  message presence, message length.
\<close>

definition sourceOrder ::
  "(jsstring \<Rightarrow> jsstring) \<Rightarrow> jsstring \<Rightarrow> jsstring \<Rightarrow> jsstring \<Rightarrow> (bool \<times> validation_error) list" where
  "sourceOrder toLower name email msg =
     [(name = [], NameRequired),
      (email = [], EmailRequired),
      (length name < 2, NameTooShort), (length name > 100, NameTooLong),
      (\<not> validateEmail toLower (JStr email), EmailInvalid),
      (msg = [], MessageRequired),
      (length msg < 10, MessageTooShort), (length msg > 5000, MessageTooLong)]"

text \<open>All three fields present and within their bounds.\<close>

definition withinBounds ::
  "(jsstring \<Rightarrow> jsstring) \<Rightarrow> jsstring \<Rightarrow> jsstring \<Rightarrow> jsstring \<Rightarrow> bool" where
  "withinBounds toLower name email msg =
     (name \<noteq> [] \<and> email \<noteq> [] \<and> msg \<noteq> [] \<and>
      2 \<le> length name \<and> length name \<le> 100 \<and>
      validateEmail toLower (JStr email) \<and>
      10 \<le> length msg \<and> length msg \<le> 5000)"

subsection \<open>Concrete inputs\<close>

text \<open>4999 times \<open>a\<close>, a space and \<open>b\<close>: truncation at 5000 cuts after the space.\<close>

definition longInput :: jsstring where
  "longInput = replicate 4999 0x61 @ [0x20, 0x62]"

definition shortNameForm :: form where
  "shortNameForm = \<lparr>name_field = JStr (js ''A''), email_field = JStr [],
                     message_field = JStr (js ''Hello, this is a test message.'')\<rparr>"

definition alForm :: form where
  "alForm = \<lparr>name_field = JStr (js ''Al''), email_field = JStr (js ''al@example.com''),
              message_field = JStr (js ''Hello, this is a test message.'')\<rparr>"

definition post :: "form \<Rightarrow> request" where
  "post b = \<lparr>ip = Some (js ''ip1''), remoteAddress = None, body = Some b\<rparr>"

definition gmailEnv :: env where
  "gmailEnv = \<lparr>GMAIL_EMAIL = Some (js ''owner@gmail.com''), GMAIL_PASSWORD = Some (js ''secret''),
               NODE_ENV = Some (js ''production'')\<rparr>"

definition freshServer :: server where
  "freshServer = \<lparr>rateLimitMap = Map.empty, transporter = None\<rparr>"

subsection \<open>The ledger, the answers and the rendering\<close>

text \<open>The timestamp sequence of an identifier, empty when it has no entry.\<close>

definition timestamps :: "(jsstring \<rightharpoonup> int list) \<Rightarrow> jsstring \<Rightarrow> int list" where
  "timestamps m identifier = (case m identifier of Some r \<Rightarrow> r | None \<Rightarrow> [])"

text \<open>The entries within \<open>windowMs\<close> of \<open>now\<close>.\<close>

definition recent :: "int \<Rightarrow> int \<Rightarrow> int list \<Rightarrow> int list" where
  "recent now windowMs ts = filter (\<lambda>time. now - time < windowMs) ts"

text \<open>
  Consecutive calls \<open>checkRateLimit(identifier, 5, 3600000)\<close>, one at each clock reading
  of the list: the verdicts in order, and the ledger they leave.
\<close>

fun allowCalls ::
  "(jsstring \<rightharpoonup> int list) \<Rightarrow> jsstring \<Rightarrow> int list \<Rightarrow> bool list \<times> (jsstring \<rightharpoonup> int list)" where
  "allowCalls m identifier [] = ([], m)"
| "allowCalls m identifier (now # later) =
     (let (ok, m1) = checkRateLimit m now identifier 5 3600000;
          (oks, m2) = allowCalls m1 identifier later
      in (ok # oks, m2))"

text \<open>A ledger where \<open>ip1\<close> has used its five requests; one with an old entry.\<close>

definition fullLedger :: "jsstring \<rightharpoonup> int list" where
  "fullLedger = [js ''ip1'' \<mapsto> [1, 2, 3, 4, 5]]"

definition staleLedger :: "jsstring \<rightharpoonup> int list" where
  "staleLedger = [js ''ip1'' \<mapsto> [5]]"

text \<open>The valid submission with the message \<open>short\<close>.\<close>

definition shortMessageForm :: form where
  "shortMessageForm = \<lparr>name_field = JStr (js ''Al''), email_field = JStr (js ''al@example.com''),
              message_field = JStr (js ''short'')\<rparr>"

text \<open>An environment without the Gmail credentials.\<close>

definition noCredentials :: env where
  "noCredentials = \<lparr>GMAIL_EMAIL = None, GMAIL_PASSWORD = None, NODE_ENV = Some (js ''production'')\<rparr>"

text \<open>The answer of line 262.\<close>

definition ok200 :: response where
  "ok200 = \<lparr>status = 200, success = True,
            message = js ''Email sent successfully! I will get back to you soon.'', error = None\<rparr>"

text \<open>A transport error with the code \<open>ETIMEDOUT\<close>.\<close>

definition timedOut :: js_error where
  "timedOut = \<lparr>code = Some (js ''ETIMEDOUT''), errmsg = js ''Connection timeout''\<rparr>"

text \<open>
  The entity of each of the five characters \<open>&\<close>, \<open><\<close>, \<open>>\<close>, the double and the
  single quote; any other code unit stands for itself.
\<close>

definition entity :: "cu \<Rightarrow> jsstring" where
  "entity c =
     (if c = 0x26 then js ''&amp;''
      else if c = 0x3C then js ''&lt;''
      else if c = 0x3E then js ''&gt;''
      else if c = 0x22 then js ''&quot;''
      else if c = 0x27 then js ''&#039;''
      else [c])"

text \<open>A value as the HTML body shows it; a message, with its line feeds as \<open><br>\<close>.\<close>

definition rendered :: "jsstring \<Rightarrow> jsstring" where
  "rendered s = concat (map entity s)"

definition renderedLines :: "jsstring \<Rightarrow> jsstring" where
  "renderedLines s = concat (map (\<lambda>c. if c = 0xA then js ''<br>'' else entity c) s)"

text \<open>A submission whose name is \<open><script>\<close> and whose message has two lines.\<close>

definition twoLines :: jsstring where
  "twoLines = js ''Line one'' @ [0xA] @ js ''Tom & Al''"

definition scriptForm :: form where
  "scriptForm = \<lparr>name_field = JStr (js ''<script>''), email_field = JStr (js ''al@example.com''),
                 message_field = JStr twoLines\<rparr>"

section \<open>Properties\<close>

lemmas string_ops = js_def trim_def trimStart_def trimEnd_def isWhiteSpace_def substring0_def
  asciiLower_def

lemmas regex_ops = test_def emailRegex_def Plus_def notSpaceAt_def

subsection \<open>Trimming and \<open>sanitizeInput\<close>\<close>

lemma trimStart_fix: "s = [] \<or> \<not> isWhiteSpace (hd s) \<Longrightarrow> trimStart s = s"
  by (cases s) (auto simp: trimStart_def)

lemma trimEnd_fix: "s = [] \<or> \<not> isWhiteSpace (last s) \<Longrightarrow> trimEnd s = s"
proof (cases s rule: rev_cases)
  case Nil
  then show ?thesis by (simp add: trimEnd_def)
next
  case (snoc ys y)
  assume "s = [] \<or> \<not> isWhiteSpace (last s)"
  with snoc show ?thesis by (simp add: trimEnd_def)
qed

lemma trimEnd_fix_iff: "(trimEnd s = s) = (s = [] \<or> \<not> isWhiteSpace (last s))"
proof
  assume eq: "trimEnd s = s"
  show "s = [] \<or> \<not> isWhiteSpace (last s)"
  proof (cases s rule: rev_cases)
    case Nil
    then show ?thesis by simp
  next
    case (snoc ys y)
    have "\<not> isWhiteSpace y"
    proof
      assume "isWhiteSpace y"
      with snoc have "length (trimEnd s) \<le> length ys"
        by (simp add: trimEnd_def length_dropWhile_le le_trans[OF length_dropWhile_le])
      with eq snoc show False by simp
    qed
    with snoc show ?thesis by simp
  qed
next
  assume "s = [] \<or> \<not> isWhiteSpace (last s)"
  then show "trimEnd s = s" by (rule trimEnd_fix)
qed

lemma trimStart_head: "trimStart s = [] \<or> \<not> isWhiteSpace (hd (trimStart s))"
  unfolding trimStart_def using hd_dropWhile[of isWhiteSpace s] by blast

lemma trimEnd_last: "trimEnd s = [] \<or> \<not> isWhiteSpace (last (trimEnd s))"
  unfolding trimEnd_def using hd_dropWhile[of isWhiteSpace "rev s"]
  by (auto simp: last_rev)

lemma trimEnd_head: "\<not> isWhiteSpace (hd s) \<Longrightarrow> s \<noteq> [] \<Longrightarrow> trimEnd s \<noteq> [] \<and> hd (trimEnd s) = hd s"
proof (induction s rule: rev_induct)
  case Nil
  then show ?case by simp
next
  case (snoc x xs)
  show ?case
  proof (cases "isWhiteSpace x")
    case False
    then show ?thesis by (simp add: trimEnd_def)
  next
    case True
    then have step: "trimEnd (xs @ [x]) = trimEnd xs" by (simp add: trimEnd_def)
    from True snoc.prems have "xs \<noteq> []" by (cases xs) auto
    with snoc show ?thesis by (simp add: step)
  qed
qed

lemma trim_head: "trim s = [] \<or> \<not> isWhiteSpace (hd (trim s))"
proof (cases "trimStart s = []")
  case True
  then show ?thesis by (simp add: trim_def trimEnd_def)
next
  case False
  with trimStart_head[of s] have "\<not> isWhiteSpace (hd (trimStart s))" by simp
  from trimEnd_head[OF this False] show ?thesis
    using \<open>\<not> isWhiteSpace (hd (trimStart s))\<close> by (simp add: trim_def)
qed

lemma trim_last: "trim s = [] \<or> \<not> isWhiteSpace (last (trim s))"
  unfolding trim_def by (rule trimEnd_last)

lemma take_head: "take n s = [] \<or> hd (take n s) = hd s"
  by (cases s; cases n) auto

lemma sanitizeInput_length: "length (sanitizeInput v) \<le> 5000"
  by (cases v) (simp_all add: substring0_def)

lemma sanitizeInput_head: "sanitizeInput v = [] \<or> \<not> isWhiteSpace (hd (sanitizeInput v))"
proof (cases v)
  case JOther
  then show ?thesis by simp
next
  case (JStr s)
  show ?thesis
    using trim_head[of s] take_head[of 5000 "trim s"] JStr
    by (auto simp: substring0_def)
qed

lemma trimEnd_length: "length (trimEnd s) \<le> length s"
  by (simp add: trimEnd_def length_dropWhile_le le_trans[OF length_dropWhile_le])

lemma sanitizeInput_again: "sanitizeInput (JStr (sanitizeInput v)) = trimEnd (sanitizeInput v)"
proof -
  have "trimStart (sanitizeInput v) = sanitizeInput v"
    using sanitizeInput_head[of v] by (intro trimStart_fix) 
  moreover have "length (trimEnd (sanitizeInput v)) \<le> 5000"
    using trimEnd_length[of "sanitizeInput v"] sanitizeInput_length[of v] by linarith
  ultimately show ?thesis by (simp add: trim_def substring0_def)
qed

lemma trim_longInput: "trim longInput = longInput"
proof -
  have "trimStart longInput = longInput"
    by (rule trimStart_fix) (simp add: longInput_def isWhiteSpace_def hd_append)
  moreover have "trimEnd longInput = longInput"
    by (rule trimEnd_fix) (simp add: longInput_def isWhiteSpace_def)
  ultimately show ?thesis by (simp add: trim_def)
qed

lemma sanitize_longInput: "sanitizeInput (JStr longInput) = replicate 4999 0x61 @ [0x20]"
  by (simp add: trim_longInput substring0_def) (simp add: longInput_def)

text \<open>
  Claim C3, as stated: \<open>sanitize(sanitize(s)) = sanitize(s)\<close> for every string. It fails
  on \<open>longInput\<close>: the first call trims nothing and cuts after the space at position 5000,
  the second call trims that space away.
\<close>

theorem sanitizeInput_not_idempotent:
  "sanitizeInput (JStr (sanitizeInput (JStr longInput))) \<noteq> sanitizeInput (JStr longInput)"
proof
  assume "sanitizeInput (JStr (sanitizeInput (JStr longInput))) = sanitizeInput (JStr longInput)"
  then have "trimEnd (sanitizeInput (JStr longInput)) = sanitizeInput (JStr longInput)"
    by (simp only: sanitizeInput_again)
  then have "trimEnd (replicate 4999 0x61 @ [0x20]) = replicate 4999 0x61 @ [0x20]"
    by (simp only: sanitize_longInput)
  then have "\<not> isWhiteSpace (0x20 :: cu)"
    by (simp only: trimEnd_fix_iff) simp
  then show False
    by (simp add: isWhiteSpace_def)
qed

text \<open>
  Claim C3, amended: a second \<open>sanitizeInput\<close> removes exactly the trailing white space
  that the truncation exposed; so it changes nothing exactly when the sanitized string
  does not end in white space, and in particular whenever the trimmed input has at most
  5000 code units (and for an input that is not a string).
\<close>

theorem sanitizeInput_twice:
  "sanitizeInput (JStr (sanitizeInput v)) = trimEnd (sanitizeInput v) \<and>
   ((sanitizeInput (JStr (sanitizeInput v)) = sanitizeInput v) =
      (sanitizeInput v = [] \<or> \<not> isWhiteSpace (last (sanitizeInput v)))) \<and>
   ((case v of JStr s \<Rightarrow> length (trim s) \<le> 5000 | JOther \<Rightarrow> True) \<longrightarrow>
      sanitizeInput (JStr (sanitizeInput v)) = sanitizeInput v)"
proof (intro conjI impI)
  show "sanitizeInput (JStr (sanitizeInput v)) = trimEnd (sanitizeInput v)"
    by (rule sanitizeInput_again)
  show "(sanitizeInput (JStr (sanitizeInput v)) = sanitizeInput v) =
      (sanitizeInput v = [] \<or> \<not> isWhiteSpace (last (sanitizeInput v)))"
    by (simp only: sanitizeInput_again trimEnd_fix_iff)
  assume short: "case v of JStr s \<Rightarrow> length (trim s) \<le> 5000 | JOther \<Rightarrow> True"
  show "sanitizeInput (JStr (sanitizeInput v)) = sanitizeInput v"
  proof (cases v)
    case JOther
    then show ?thesis by (simp add: trim_def trimStart_def trimEnd_def substring0_def)
  next
    case (JStr s)
    with short have eq: "sanitizeInput v = trim s" by (simp add: substring0_def)
    have "trimEnd (sanitizeInput v) = sanitizeInput v"
      using trim_last[of s] unfolding eq by (rule trimEnd_fix)
    then show ?thesis by (simp only: sanitizeInput_again)
  qed
qed

text \<open>Claim C3, amended, on \<open>"  hello "\<close>, whose trimmed length is 5.\<close>

theorem sanitizeInput_twice_witness:
  "length (trim (js ''  hello '')) \<le> 5000 \<and>
   sanitizeInput (JStr (sanitizeInput (JStr (js ''  hello '')))) = js ''hello''"
  using sanitizeInput_twice[of "JStr (js ''  hello '')"]
  by (simp add: js_def trim_def trimStart_def trimEnd_def isWhiteSpace_def substring0_def)

subsection \<open>\<open>validateEmail\<close>\<close>

lemma nullable_lang: "nullable r = ([] \<in> lang r)"
  by (induction r) (auto simp: conc_def intro: star_nil)

lemma cons_in_conc:
  "(c # w \<in> conc A B) =
     ((\<exists>u v. w = u @ v \<and> c # u \<in> A \<and> v \<in> B) \<or> ([] \<in> A \<and> c # w \<in> B))"
  unfolding conc_def by (auto simp: Cons_eq_append_conv) 

lemma star_cons_split:
  assumes "x \<in> star A" and "x = c # w"
  shows "\<exists>u v. w = u @ v \<and> c # u \<in> A \<and> v \<in> star A"
  using assms
proof (induction arbitrary: w rule: star.induct)
  case star_nil
  then show ?case by simp
next
  case (star_app a y)
  show ?case
  proof (cases a)
    case Nil
    with star_app show ?thesis by simp
  next
    case (Cons d u)
    with star_app.prems have "d = c" and "w = u @ y" by simp_all
    with Cons star_app.hyps show ?thesis by blast
  qed
qed

lemma cons_in_star:
  "(c # w \<in> star A) = (\<exists>u v. w = u @ v \<and> c # u \<in> A \<and> v \<in> star A)"
proof
  assume "c # w \<in> star A"
  then show "\<exists>u v. w = u @ v \<and> c # u \<in> A \<and> v \<in> star A"
    by (rule star_cons_split) simp
next
  assume "\<exists>u v. w = u @ v \<and> c # u \<in> A \<and> v \<in> star A"
  then obtain u v where "w = u @ v" "c # u \<in> A" "v \<in> star A" by blast
  then show "c # w \<in> star A" using star_app[of "c # u" A v] by simp
qed

lemma deriv_lang: "lang (deriv c r) = {w. c # w \<in> lang r}"
proof (induction r)
  case (Seq r1 r2)
  then show ?case
    by (auto simp: cons_in_conc nullable_lang) (auto simp: conc_def)
next
  case (Star r)
  then show ?case
    by (auto simp: cons_in_star) (auto simp: conc_def)
qed auto

lemma fold_deriv_lang: "nullable (fold deriv s r) = (s \<in> lang r)"
  by (induction s arbitrary: r) (simp_all add: nullable_lang deriv_lang)

lemma test_lang: "test r s = (s \<in> lang r)"
  by (simp add: test_def fold_deriv_lang)

lemma star_cls: "(w \<in> star {[c] | c. P c}) = (\<forall>x \<in> set w. P x)"
proof
  assume "w \<in> star {[c] | c. P c}"
  then show "\<forall>x \<in> set w. P x"
    by (induction rule: star.induct) auto
next
  assume "\<forall>x \<in> set w. P x"
  then show "w \<in> star {[c] | c. P c}"
  proof (induction w)
    case Nil
    show ?case by (rule star_nil)
  next
    case (Cons x xs)
    then have "[x] \<in> {[c] | c. P c}" and "xs \<in> star {[c] | c. P c}" by auto
    then have "[x] @ xs \<in> star {[c] | c. P c}" by (rule star_app)
    then show ?case by simp
  qed
qed

lemma lang_Plus_Cls: "(w \<in> lang (Plus (Cls P))) = (w \<noteq> [] \<and> (\<forall>x \<in> set w. P x))"
proof (cases w)
  case Nil
  then show ?thesis by (simp add: Plus_def conc_def)
next
  case (Cons x xs)
  then show ?thesis
    by (auto simp: Plus_def cons_in_conc star_cls)
qed

lemma in_conc: "(x \<in> conc A B) = (\<exists>a b. x = a @ b \<and> a \<in> A \<and> b \<in> B)"
  by (auto simp: conc_def)

lemma lang_char: "(w \<in> lang (Cls (\<lambda>c. c = k))) = (w = [k])"
  by auto

lemma lang_emailRegex: "(s \<in> lang emailRegex) = emailShape s"
proof -
  let ?L = "lang (Plus (Cls notSpaceAt))"
  have "(s \<in> lang emailRegex) =
        (\<exists>a r1. s = a @ r1 \<and> a \<in> ?L \<and> (\<exists>k r2. r1 = k @ r2 \<and> k = [0x40] \<and>
           (\<exists>b r3. r2 = b @ r3 \<and> b \<in> ?L \<and> (\<exists>d c. r3 = d @ c \<and> d = [0x2E] \<and> c \<in> ?L))))"
    unfolding emailRegex_def lang.simps(5) in_conc lang_char ..
  also have "\<dots> = (\<exists>a b c. s = a @ [0x40] @ b @ [0x2E] @ c \<and> a \<in> ?L \<and> b \<in> ?L \<and> c \<in> ?L)"
    by blast
  also have "\<dots> = emailShape s"
    unfolding emailShape_def lang_Plus_Cls notSpaceAt_def by (intro ex_cong1 iff_exI) auto
  finally show ?thesis .
qed

lemma validateEmail_shape:
  "validateEmail toLower (JStr s) =
     (emailShape (toLower (trim s)) \<and> length (toLower (trim s)) \<le> 254 \<and> s \<noteq> [])"
  by (simp add: Let_def test_lang lang_emailRegex)

lemma emailShape_Nil: "\<not> emailShape []"
  by (simp add: emailShape_def)

lemma length_asciiLower: "length (asciiLower s) = length s"
  by (simp add: asciiLower_def)

lemma trim_long_email: "trim (js ''a@b.'' @ replicate 260 0x63) = js ''a@b.'' @ replicate 260 0x63"
proof -
  have "trimStart (js ''a@b.'' @ replicate 260 0x63) = js ''a@b.'' @ replicate 260 0x63"
    by (rule trimStart_fix) (simp add: js_def isWhiteSpace_def)
  moreover have "trimEnd (js ''a@b.'' @ replicate 260 0x63) = js ''a@b.'' @ replicate 260 0x63"
    by (rule trimEnd_fix) (simp add: js_def isWhiteSpace_def)
  ultimately show ?thesis by (simp add: trim_def)
qed

lemma long_email_rejected: "\<not> validateEmail asciiLower (JStr (js ''a@b.'' @ replicate 260 0x63))"
  by (simp add: validateEmail_shape trim_long_email length_asciiLower)

text \<open>
  Claim C6: \<open>validateEmail\<close> accepts exactly the strings that, trimmed and lowercased,
  have the shape \<open>local@domain.tld\<close> of \<open>emailShape\<close> and at most 254 code units
  (lowercasing leaves the empty string empty); it accepts \<open>a@b.co\<close> and rejects
  \<open>not-an-email\<close> and \<open>a@b.\<close> followed by 260 times \<open>c\<close>.
\<close>

theorem validateEmail_exact:
  assumes "toLower [] = []"
  shows "validateEmail toLower (JStr s) =
           (emailShape (toLower (trim s)) \<and> length (toLower (trim s)) \<le> 254) \<and>
         validateEmail asciiLower (JStr (js ''a@b.co'')) \<and>
         \<not> validateEmail asciiLower (JStr (js ''not-an-email'')) \<and>
         \<not> validateEmail asciiLower (JStr (js ''a@b.'' @ replicate 260 0x63))"
proof (intro conjI)
  show "validateEmail toLower (JStr s) =
           (emailShape (toLower (trim s)) \<and> length (toLower (trim s)) \<le> 254)"
  proof (cases "s = []")
    case True
    then have "toLower (trim s) = []"
      using assms by (simp add: trim_def trimStart_def trimEnd_def)
    with True show ?thesis by (simp add: emailShape_Nil)
  next
    case False
    then show ?thesis by (simp add: validateEmail_shape del: validateEmail.simps)
  qed
  show "validateEmail asciiLower (JStr (js ''a@b.co''))"
    by (simp add: string_ops regex_ops Let_def)
  show "\<not> validateEmail asciiLower (JStr (js ''not-an-email''))"
    by (simp add: string_ops regex_ops Let_def)
  show "\<not> validateEmail asciiLower (JStr (js ''a@b.'' @ replicate 260 0x63))"
    by (rule long_email_rejected)
qed

text \<open>
  Claim C6 at \<open>" Al.Bo@Example.com  "\<close> with ASCII lowercasing: accepted, so the
  normalised address has the shape.
\<close>

theorem validateEmail_exact_witness:
  "asciiLower [] = [] \<and>
   validateEmail asciiLower (JStr (js '' Al.Bo@Example.com  '')) \<and>
   emailShape (asciiLower (trim (js '' Al.Bo@Example.com  ''))) \<and>
   length (asciiLower (trim (js '' Al.Bo@Example.com  ''))) \<le> 254"
proof -
  have e: "asciiLower [] = []" by (simp add: asciiLower_def)
  have v: "validateEmail asciiLower (JStr (js '' Al.Bo@Example.com  ''))"
    by (simp add: string_ops regex_ops Let_def)
  from validateEmail_exact[of asciiLower "js '' Al.Bo@Example.com  ''"] e v show ?thesis
    by (simp del: validateEmail.simps)
qed

subsection \<open>The order of the validation checks\<close>

lemma validation_sourceOrder:
  "validation toLower n e m = firstFailing (sourceOrder toLower n e m)"
  by (simp add: validation_def firstFailing_def sourceOrder_def)

lemma validation_None_iff:
  "(validation toLower n e m = None) = withinBounds toLower n e m"
  by (auto simp: validation_def withinBounds_def)

lemma handler_rejects:
  "body req = Some b \<Longrightarrow>
   validation toLower (cleanName b) (cleanEmail toLower b) (cleanMessage b) = Some v \<Longrightarrow>
   handler toLower e srv req now d1 d2 sr =
     \<lparr>res = badRequest (reason v), after = srv, sentMail = None\<rparr>"
  by (simp add: handler_def)

lemma handler_no_body:
  "body req = None \<Longrightarrow>
   handler toLower e srv req now d1 d2 sr =
     \<lparr>res = badRequest (js ''Request body must be valid JSON''), after = srv, sentMail = None\<rparr>"
  by (simp add: handler_def)

lemma status_catchError: "status (catchError e err) = 500 \<or> status (catchError e err) = 503"
  by (simp add: catchError_def Let_def)

lemma getTransporter_map:
  "getTransporter e s = Inr (t, s') \<Longrightarrow> rateLimitMap s' = rateLimitMap s"
  by (auto simp: getTransporter_def Let_def split: option.splits if_splits prod.splits)

lemma cleanName_short: "cleanName shortNameForm = js ''A''"
  by (simp add: cleanName_def shortNameForm_def string_ops)
lemma cleanEmail_short: "cleanEmail asciiLower shortNameForm = []"
  by (simp add: cleanEmail_def shortNameForm_def string_ops)

lemma cleanName_al: "cleanName alForm = js ''Al''"
  by (simp add: cleanName_def alForm_def string_ops)
lemma cleanEmail_al: "cleanEmail asciiLower alForm = js ''al@example.com''"
  by (simp add: cleanEmail_def alForm_def string_ops)
lemma cleanMessage_al: "cleanMessage alForm = js ''Hello, this is a test message.''"
  by (simp add: cleanMessage_def alForm_def string_ops)
lemma validateEmail_al: "validateEmail asciiLower (JStr (js ''al@example.com''))"
  by (simp add: string_ops regex_ops Let_def)
lemma validation_al:
  "validation asciiLower (cleanName alForm) (cleanEmail asciiLower alForm) (cleanMessage alForm) = None"
  unfolding cleanName_al cleanEmail_al cleanMessage_al validation_def
  by (simp add: string_ops regex_ops Let_def)

text \<open>
  Claim C2, as stated: the error returned is that of the first failing check in the order
  name presence, name length, email presence, email format, message presence, message
  length. For the name \<open>A\<close> with an empty email the first failing check of that order is
  the name length, and the handler answers \<open>Email is required\<close>.
\<close>

theorem short_name_empty_email_order:
  "firstFailing (claimedOrder asciiLower (cleanName shortNameForm)
      (cleanEmail asciiLower shortNameForm) (cleanMessage shortNameForm)) = Some NameTooShort \<and>
   res (handler asciiLower gmailEnv freshServer (post shortNameForm) 0 [] [] Delivered) =
     badRequest (reason EmailRequired) \<and>
   badRequest (reason EmailRequired) \<noteq> badRequest (reason NameTooShort)"
proof (intro conjI)
  show "firstFailing (claimedOrder asciiLower (cleanName shortNameForm)
      (cleanEmail asciiLower shortNameForm) (cleanMessage shortNameForm)) = Some NameTooShort"
    unfolding cleanName_short cleanEmail_short
    by (simp add: firstFailing_def claimedOrder_def js_def)
  have "validation asciiLower (cleanName shortNameForm) (cleanEmail asciiLower shortNameForm)
          (cleanMessage shortNameForm) = Some EmailRequired"
    unfolding cleanName_short cleanEmail_short by (simp add: validation_def js_def)
  then show "res (handler asciiLower gmailEnv freshServer (post shortNameForm) 0 [] [] Delivered) =
     badRequest (reason EmailRequired)"
    by (simp add: handler_rejects[of _ shortNameForm] post_def)
  show "badRequest (reason EmailRequired) \<noteq> badRequest (reason NameTooShort)"
    by (simp add: badRequest_def js_def)
qed

text \<open>
  Claim C2, amended: when a check fails, the handler answers 400 with the error of the
  first failing check in the order name presence, email presence, name length (minimum,
  then maximum), email format, message presence, message length (minimum, then maximum),
  changes nothing and sends nothing.
\<close>

theorem handler_first_failing:
  assumes "body req = Some b"
    and "firstFailing (sourceOrder toLower (cleanName b) (cleanEmail toLower b) (cleanMessage b))
           = Some v"
  shows "handler toLower e srv req now d1 d2 sr =
           \<lparr>res = badRequest (reason v), after = srv, sentMail = None\<rparr>"
  using assms by (simp add: handler_rejects validation_sourceOrder)

text \<open>Claim C2, amended, on the name \<open>A\<close> with an empty email.\<close>

theorem handler_first_failing_witness:
  "body (post shortNameForm) = Some shortNameForm \<and>
   firstFailing (sourceOrder asciiLower (cleanName shortNameForm)
      (cleanEmail asciiLower shortNameForm) (cleanMessage shortNameForm)) = Some EmailRequired \<and>
   handler asciiLower gmailEnv freshServer (post shortNameForm) 0 [] [] Delivered =
     \<lparr>res = badRequest (reason EmailRequired), after = freshServer, sentMail = None\<rparr>"
proof -
  have b: "body (post shortNameForm) = Some shortNameForm" by (simp add: post_def)
  have f: "firstFailing (sourceOrder asciiLower (cleanName shortNameForm)
      (cleanEmail asciiLower shortNameForm) (cleanMessage shortNameForm)) = Some EmailRequired"
    unfolding cleanName_short cleanEmail_short
    by (simp add: firstFailing_def sourceOrder_def js_def)
  from handler_first_failing[OF b f] b f show ?thesis by simp
qed

subsection \<open>\<open>checkRateLimit\<close>\<close>

lemma checkRateLimit_allowed:
  "int (length (recent now w (timestamps m i))) < mx \<Longrightarrow>
   checkRateLimit m now i mx w = (True, m(i \<mapsto> recent now w (timestamps m i) @ [now]))"
  by (auto simp: checkRateLimit_def timestamps_def recent_def Let_def split: option.splits)

lemma checkRateLimit_denied:
  "mx \<le> int (length (recent now w (timestamps m i))) \<Longrightarrow>
   checkRateLimit m now i mx w = (False, if m i = None then m(i \<mapsto> []) else m)"
  by (auto simp: checkRateLimit_def timestamps_def recent_def Let_def split: option.splits)

lemma checkRateLimit_cases:
  "checkRateLimit m now i mx w =
     (if mx \<le> int (length (recent now w (timestamps m i)))
      then (False, if m i = None then m(i \<mapsto> []) else m)
      else (True, m(i \<mapsto> recent now w (timestamps m i) @ [now])))"
  by (simp add: checkRateLimit_allowed checkRateLimit_denied)

text \<open>
  Claim C5: whenever \<open>checkRateLimit\<close>, called with \<open>maxRequests = 5\<close> as the handler
  and the default do, denies a request, the identifier has at least five entries within
  the window and the ledger after the call equals the ledger before it.
\<close>

theorem denial_leaves_ledger:
  assumes "\<not> fst (checkRateLimit m now identifier 5 windowMs)"
  shows "5 \<le> length (recent now windowMs (timestamps m identifier)) \<and>
         snd (checkRateLimit m now identifier 5 windowMs) = m"
proof -
  from assms have full: "5 \<le> int (length (recent now windowMs (timestamps m identifier)))"
    by (simp add: checkRateLimit_cases split: if_splits)
  have "m identifier \<noteq> None"
  proof
    assume "m identifier = None"
    then have "recent now windowMs (timestamps m identifier) = []"
      by (simp add: timestamps_def recent_def)
    with full show False by simp
  qed
  then obtain ts where "m identifier = Some ts" by auto
  with full show ?thesis
    by (simp add: checkRateLimit_cases)
qed

text \<open>Claim C5 at the sixth request of \<open>ip1\<close> within the window.\<close>

theorem denial_leaves_ledger_witness:
  "fullLedger (js ''ip1'') = Some [1, 2, 3, 4, 5] \<and>
   \<not> fst (checkRateLimit fullLedger 10 (js ''ip1'') 5 3600000) \<and>
   snd (checkRateLimit fullLedger 10 (js ''ip1'') 5 3600000) = fullLedger"
proof -
  have d: "\<not> fst (checkRateLimit fullLedger 10 (js ''ip1'') 5 3600000)"
    by (simp add: checkRateLimit_def fullLedger_def)
  have l: "fullLedger (js ''ip1'') = Some [1, 2, 3, 4, 5]" by (simp add: fullLedger_def)
  from denial_leaves_ledger[OF d] l d show ?thesis by simp
qed

text \<open>
  Claim C4: for every identifier whose earlier entries, if any, have left the window, six
  consecutive calls with \<open>maxRequests = 5\<close> and \<open>windowMs = 3600000\<close> within one
  window are allowed five times and denied the sixth time, and a call made a full window
  after them is allowed again.
\<close>

theorem six_calls_then_window:
  assumes expired: "\<forall>t \<in> set (timestamps m identifier). 3600000 \<le> t1 - t"
    and order: "t1 \<le> t2" "t2 \<le> t3" "t3 \<le> t4" "t4 \<le> t5" "t5 \<le> t6"
    and within: "t6 - t1 < 3600000"
    and later: "3600000 \<le> t7 - t6"
  shows "fst (allowCalls m identifier [t1, t2, t3, t4, t5, t6, t7]) =
           [True, True, True, True, True, False, True]"
proof -
  let ?W = "3600000 :: int"
  have r0: "recent t1 ?W (timestamps m identifier) = []"
    using expired by (auto simp: recent_def filter_empty_conv)
  define m1 where "m1 = m(identifier \<mapsto> [t1])"
  define m2 where "m2 = m1(identifier \<mapsto> [t1, t2])"
  define m3 where "m3 = m2(identifier \<mapsto> [t1, t2, t3])"
  define m4 where "m4 = m3(identifier \<mapsto> [t1, t2, t3, t4])"
  define m5 where "m5 = m4(identifier \<mapsto> [t1, t2, t3, t4, t5])"
  define m7 where "m7 = m5(identifier \<mapsto> [t7])"
  have c1: "checkRateLimit m t1 identifier 5 ?W = (True, m1)"
    by (simp add: checkRateLimit_cases r0 m1_def)
  have c2: "checkRateLimit m1 t2 identifier 5 ?W = (True, m2)"
    using order within
    by (simp add: checkRateLimit_cases timestamps_def recent_def m1_def m2_def)
  have c3: "checkRateLimit m2 t3 identifier 5 ?W = (True, m3)"
    using order within
    by (simp add: checkRateLimit_cases timestamps_def recent_def m2_def m3_def)
  have c4: "checkRateLimit m3 t4 identifier 5 ?W = (True, m4)"
    using order within
    by (simp add: checkRateLimit_cases timestamps_def recent_def m3_def m4_def)
  have c5: "checkRateLimit m4 t5 identifier 5 ?W = (True, m5)"
    using order within
    by (simp add: checkRateLimit_cases timestamps_def recent_def m4_def m5_def)
  have c6: "checkRateLimit m5 t6 identifier 5 ?W = (False, m5)"
    using order within
    by (simp add: checkRateLimit_cases timestamps_def recent_def m5_def)
  have c7: "checkRateLimit m5 t7 identifier 5 ?W = (True, m7)"
    using order later
    by (simp add: checkRateLimit_cases timestamps_def recent_def m5_def m7_def)
  show ?thesis
    by (simp add: c1 c2 c3 c4 c5 c6 c7)
qed

text \<open>
  Claim C4 for \<open>ip1\<close>, with an entry that is exactly one window old at the first call.
\<close>

theorem six_calls_then_window_witness:
  "timestamps staleLedger (js ''ip1'') = [5] \<and> (3600000::int) \<le> 3600005 - 5 \<and>
   (3600005::int) \<le> 3600006 \<and> (3600006::int) \<le> 3600007 \<and> (3600007::int) \<le> 3600008 \<and>
   (3600008::int) \<le> 3600009 \<and> (3600009::int) \<le> 3600010 \<and>
   (3600010::int) - 3600005 < 3600000 \<and> (3600000::int) \<le> 7200010 - 3600010 \<and>
   fst (allowCalls staleLedger (js ''ip1'')
          [3600005, 3600006, 3600007, 3600008, 3600009, 3600010, 7200010]) =
     [True, True, True, True, True, False, True]"
proof -
  have e: "\<forall>t \<in> set (timestamps staleLedger (js ''ip1'')). 3600000 \<le> 3600005 - t"
    by (simp add: timestamps_def staleLedger_def)
  have t: "timestamps staleLedger (js ''ip1'') = [5]"
    by (simp add: timestamps_def staleLedger_def)
  from six_calls_then_window[OF e, of 3600006 3600007 3600008 3600009 3600010 7200010] t
  show ?thesis by simp
qed

subsection \<open>The handler\<close>

lemma getTransporter_ok:
  "\<not> falsy (GMAIL_EMAIL e) \<Longrightarrow> \<not> falsy (GMAIL_PASSWORD e) \<Longrightarrow>
   \<exists>t s'. getTransporter e s = Inr (t, s') \<and> rateLimitMap s' = rateLimitMap s"
  by (auto simp: getTransporter_def falsy_def Let_def split: option.splits)

lemma handler_past_gate:
  assumes "body req = Some b"
    and "validation toLower (cleanName b) (cleanEmail toLower b) (cleanMessage b) = None"
    and "checkRateLimit (rateLimitMap srv) now (clientIP req) 5 3600000 = (True, m)"
    and "\<not> falsy (GMAIL_EMAIL e)" and "\<not> falsy (GMAIL_PASSWORD e)"
  shows "\<exists>srv2. rateLimitMap srv2 = m \<and>
           handler toLower e srv req now d1 d2 sr =
             \<lparr>res = (case race sr of Inl err \<Rightarrow> catchError e err | Inr u \<Rightarrow> ok200),
              after = srv2,
              sentMail = Some (mailOptions e (cleanName b) (cleanEmail toLower b) (cleanMessage b)
                                 d1 d2)\<rparr>"
proof -
  from getTransporter_ok[OF assms(4,5), of "srv\<lparr>rateLimitMap := m\<rparr>"]
  obtain t s' where g: "getTransporter e (srv\<lparr>rateLimitMap := m\<rparr>) = Inr (t, s')"
    and r: "rateLimitMap s' = m" by auto
  have "handler toLower e srv req now d1 d2 sr =
             \<lparr>res = (case race sr of Inl err \<Rightarrow> catchError e err | Inr u \<Rightarrow> ok200),
              after = s',
              sentMail = Some (mailOptions e (cleanName b) (cleanEmail toLower b) (cleanMessage b)
                                 d1 d2)\<rparr>"
    using assms g by (simp add: handler_def Let_def ok200_def split: sum.splits)
  with r show ?thesis by blast
qed

lemma handler_ledger:
  assumes "body req = Some b"
    and "validation toLower (cleanName b) (cleanEmail toLower b) (cleanMessage b) = None"
  shows "rateLimitMap (after (handler toLower e srv req now d1 d2 sr)) =
           snd (checkRateLimit (rateLimitMap srv) now (clientIP req) 5 3600000)"
proof (cases "checkRateLimit (rateLimitMap srv) now (clientIP req) 5 3600000")
  case (Pair allowed m)
  show ?thesis
  proof (cases "getTransporter e (srv\<lparr>rateLimitMap := m\<rparr>)")
    case (Inl err)
    with assms Pair show ?thesis by (simp add: handler_def Let_def)
  next
    case (Inr p)
    obtain t s' where p: "p = (t, s')" by (cases p)
    with Inr have "rateLimitMap s' = m" using getTransporter_map[of e "srv\<lparr>rateLimitMap := m\<rparr>" t s'] by simp
    with assms Pair Inr p show ?thesis by (simp add: handler_def Let_def split: sum.splits)
  qed
qed

lemma handler_status_past_validation:
  assumes "body req = Some b"
    and "validation toLower (cleanName b) (cleanEmail toLower b) (cleanMessage b) = None"
  shows "status (res (handler toLower e srv req now d1 d2 sr)) \<noteq> 400"
proof -
  have c: "\<And>err. status (catchError e err) \<noteq> 400"
    by (simp add: catchError_def Let_def)
  show ?thesis
    using assms c
    by (simp add: handler_def Let_def split: prod.splits sum.splits)
qed

text \<open>
  Claim C9: a request answered with status 400 leaves the module state, and so the
  rate-limit ledger, as it was; every validation check comes before \<open>checkRateLimit\<close>.
\<close>

theorem bad_request_keeps_state:
  assumes "status (res (handler toLower e srv req now d1 d2 sr)) = 400"
  shows "after (handler toLower e srv req now d1 d2 sr) = srv"
proof (cases "body req")
  case None
  then show ?thesis by (simp add: handler_no_body)
next
  case (Some b)
  show ?thesis
  proof (cases "validation toLower (cleanName b) (cleanEmail toLower b) (cleanMessage b)")
    case None
    from handler_status_past_validation[OF Some None] assms show ?thesis by simp
  next
    case (Some v)
    with \<open>body req = Some b\<close> show ?thesis by (simp add: handler_rejects)
  qed
qed

lemma clientIP_post: "clientIP (post b) = js ''ip1''"
  by (simp add: clientIP_def post_def js_def)

lemma body_post: "body (post b) = Some b"
  by (simp add: post_def)

lemma first_call_allowed: "checkRateLimit Map.empty now i 5 3600000 = (True, [i \<mapsto> [now]])"
  by (simp add: checkRateLimit_def)

lemma gmailEnv_credentials: "\<not> falsy (GMAIL_EMAIL gmailEnv)" "\<not> falsy (GMAIL_PASSWORD gmailEnv)"
  by (simp_all add: gmailEnv_def falsy_def js_def)

lemma withinBounds_al:
  "withinBounds asciiLower (cleanName alForm) (cleanEmail asciiLower alForm) (cleanMessage alForm)"
  using validation_al by (simp only: validation_None_iff)

lemma cleanName_shortMessage: "cleanName shortMessageForm = js ''Al''"
  by (simp add: cleanName_def shortMessageForm_def string_ops)
lemma cleanMessage_shortMessage: "cleanMessage shortMessageForm = js ''short''"
  by (simp add: cleanMessage_def shortMessageForm_def string_ops)

lemma not_withinBounds_shortMessage:
  "\<not> withinBounds asciiLower (cleanName shortMessageForm) (cleanEmail asciiLower shortMessageForm)
       (cleanMessage shortMessageForm)"
  unfolding cleanMessage_shortMessage withinBounds_def by (simp add: js_def)

lemma sent_some:
  assumes "sentMail (handler toLower e srv req now d1 d2 sr) = Some m"
  shows "\<exists>b. body req = Some b \<and>
           validation toLower (cleanName b) (cleanEmail toLower b) (cleanMessage b) = None \<and>
           m = mailOptions e (cleanName b) (cleanEmail toLower b) (cleanMessage b) d1 d2"
proof (cases "body req")
  case None
  with assms show ?thesis by (simp add: handler_no_body)
next
  case (Some b)
  show ?thesis
  proof (cases "validation toLower (cleanName b) (cleanEmail toLower b) (cleanMessage b)")
    case (Some v)
    with \<open>body req = Some b\<close> assms show ?thesis by (simp add: handler_rejects)
  next
    case None
    with \<open>body req = Some b\<close> assms show ?thesis
      by (auto simp: handler_def Let_def split: prod.splits sum.splits if_splits)
  qed
qed

text \<open>
  Claim C8: \<open>sendMail\<close> is given a message only if the three cleaned fields are present
  and within bounds; a request without such fields is answered with status 400 and
  nothing is given to \<open>sendMail\<close>.
\<close>

theorem send_only_within_bounds:
  "(sentMail (handler toLower e srv req now d1 d2 sr) \<noteq> None \<longrightarrow>
      (\<exists>b. body req = Some b \<and>
           withinBounds toLower (cleanName b) (cleanEmail toLower b) (cleanMessage b))) \<and>
   ((\<forall>b. body req = Some b \<longrightarrow>
           \<not> withinBounds toLower (cleanName b) (cleanEmail toLower b) (cleanMessage b)) \<longrightarrow>
      status (res (handler toLower e srv req now d1 d2 sr)) = 400 \<and>
      sentMail (handler toLower e srv req now d1 d2 sr) = None)"
proof (intro conjI impI)
  assume "sentMail (handler toLower e srv req now d1 d2 sr) \<noteq> None"
  then obtain m where "sentMail (handler toLower e srv req now d1 d2 sr) = Some m" by auto
  from sent_some[OF this]
  show "\<exists>b. body req = Some b \<and>
           withinBounds toLower (cleanName b) (cleanEmail toLower b) (cleanMessage b)"
    by (auto simp: validation_None_iff)
next
  assume out: "\<forall>b. body req = Some b \<longrightarrow>
           \<not> withinBounds toLower (cleanName b) (cleanEmail toLower b) (cleanMessage b)"
  have "status (res (handler toLower e srv req now d1 d2 sr)) = 400 \<and>
        sentMail (handler toLower e srv req now d1 d2 sr) = None"
  proof (cases "body req")
    case None
    then show ?thesis by (simp add: handler_no_body badRequest_def)
  next
    case (Some b)
    with out have "validation toLower (cleanName b) (cleanEmail toLower b) (cleanMessage b) \<noteq> None"
      by (simp add: validation_None_iff)
    then obtain v where
      "validation toLower (cleanName b) (cleanEmail toLower b) (cleanMessage b) = Some v" by auto
    with Some show ?thesis by (simp add: handler_rejects badRequest_def)
  qed
  then show "status (res (handler toLower e srv req now d1 d2 sr)) = 400"
    and "sentMail (handler toLower e srv req now d1 d2 sr) = None" by simp_all
qed

text \<open>
  Claim C8 on the valid submission of Al, which is sent, and on the message \<open>short\<close>,
  which is answered 400.
\<close>

theorem send_only_within_bounds_witness:
  "sentMail (handler asciiLower gmailEnv freshServer (post alForm) 0 [] [] Delivered) \<noteq> None \<and>
   withinBounds asciiLower (cleanName alForm) (cleanEmail asciiLower alForm) (cleanMessage alForm) \<and>
   \<not> withinBounds asciiLower (cleanName shortMessageForm)
       (cleanEmail asciiLower shortMessageForm) (cleanMessage shortMessageForm) \<and>
   status (res (handler asciiLower gmailEnv freshServer (post shortMessageForm) 0 [] [] Delivered))
     = 400 \<and>
   sentMail (handler asciiLower gmailEnv freshServer (post shortMessageForm) 0 [] [] Delivered)
     = None"
proof -
  have c: "checkRateLimit (rateLimitMap freshServer) 0 (clientIP (post alForm)) 5 3600000 =
             (True, [js ''ip1'' \<mapsto> [0]])"
    by (simp add: freshServer_def clientIP_post first_call_allowed)
  from handler_past_gate[OF body_post validation_al c gmailEnv_credentials, of "[]" "[]" Delivered]
  have sent: "sentMail (handler asciiLower gmailEnv freshServer (post alForm) 0 [] [] Delivered)
                \<noteq> None"
    by auto
  have out: "\<forall>b. body (post shortMessageForm) = Some b \<longrightarrow>
           \<not> withinBounds asciiLower (cleanName b) (cleanEmail asciiLower b) (cleanMessage b)"
    using not_withinBounds_shortMessage by (simp add: body_post)
  from send_only_within_bounds[of asciiLower gmailEnv freshServer "post shortMessageForm" 0
         "[]" "[]" Delivered] out
  have rejected:
    "status (res (handler asciiLower gmailEnv freshServer (post shortMessageForm) 0 [] [] Delivered))
       = 400 \<and>
     sentMail (handler asciiLower gmailEnv freshServer (post shortMessageForm) 0 [] [] Delivered)
       = None"
    by blast
  from send_only_within_bounds[of asciiLower gmailEnv freshServer "post alForm" 0
         "[]" "[]" Delivered] sent
  have "withinBounds asciiLower (cleanName alForm) (cleanEmail asciiLower alForm)
          (cleanMessage alForm)"
    by (auto simp: body_post)
  with sent rejected not_withinBounds_shortMessage show ?thesis by blast
qed

text \<open>Claim C9 on the message \<open>short\<close>, with a ledger that is not empty.\<close>

theorem bad_request_keeps_state_witness:
  "status (res (handler asciiLower gmailEnv \<lparr>rateLimitMap = fullLedger, transporter = None\<rparr>
      (post shortMessageForm) 10 [] [] Delivered)) = 400 \<and>
   after (handler asciiLower gmailEnv \<lparr>rateLimitMap = fullLedger, transporter = None\<rparr>
      (post shortMessageForm) 10 [] [] Delivered) =
     \<lparr>rateLimitMap = fullLedger, transporter = None\<rparr>"
proof -
  have "validation asciiLower (cleanName shortMessageForm)
          (cleanEmail asciiLower shortMessageForm) (cleanMessage shortMessageForm) \<noteq> None"
    using not_withinBounds_shortMessage by (simp only: validation_None_iff) simp
  then obtain v where "validation asciiLower (cleanName shortMessageForm)
          (cleanEmail asciiLower shortMessageForm) (cleanMessage shortMessageForm) = Some v"
    by auto
  then have s: "status (res (handler asciiLower gmailEnv
      \<lparr>rateLimitMap = fullLedger, transporter = None\<rparr> (post shortMessageForm) 10 [] [] Delivered))
      = 400"
    by (simp add: handler_rejects[OF body_post] badRequest_def)
  from bad_request_keeps_state[OF s] s show ?thesis by simp
qed

text \<open>
  Claim C10: when a request passes the validation and \<open>checkRateLimit\<close> allows it, the
  ledger the handler leaves has the time of the request appended to the client's recent
  entries, whatever the credentials are and however the send settles; the client's count
  within the window has grown by one.
\<close>

theorem gate_consumes_quota:
  assumes "body req = Some b"
    and "validation toLower (cleanName b) (cleanEmail toLower b) (cleanMessage b) = None"
    and "fst (checkRateLimit (rateLimitMap srv) now (clientIP req) 5 3600000)"
  shows "rateLimitMap (after (handler toLower e srv req now d1 d2 sr)) =
           (rateLimitMap srv)(clientIP req \<mapsto>
              recent now 3600000 (timestamps (rateLimitMap srv) (clientIP req)) @ [now]) \<and>
         length (recent now 3600000
                   (timestamps (rateLimitMap (after (handler toLower e srv req now d1 d2 sr)))
                      (clientIP req))) =
           length (recent now 3600000 (timestamps (rateLimitMap srv) (clientIP req))) + 1"
proof -
  let ?old = "recent now 3600000 (timestamps (rateLimitMap srv) (clientIP req))"
  have l: "rateLimitMap (after (handler toLower e srv req now d1 d2 sr)) =
           snd (checkRateLimit (rateLimitMap srv) now (clientIP req) 5 3600000)"
    using assms(1,2) by (rule handler_ledger)
  have s: "snd (checkRateLimit (rateLimitMap srv) now (clientIP req) 5 3600000) =
           (rateLimitMap srv)(clientIP req \<mapsto> ?old @ [now])"
    using assms(3) by (simp add: checkRateLimit_cases split: if_splits)
  have "recent now 3600000 (?old @ [now]) = ?old @ [now]"
    by (simp add: recent_def)
  with l s show ?thesis by (simp add: timestamps_def)
qed

text \<open>
  Claim C10 on the submission of Al: answered 500 without credentials and 503 on a
  transport error \<open>ETIMEDOUT\<close>, the ledger holds the time of the request in both runs.
\<close>

theorem gate_consumes_quota_witness:
  "body (post alForm) = Some alForm \<and>
   validation asciiLower (cleanName alForm) (cleanEmail asciiLower alForm) (cleanMessage alForm)
     = None \<and>
   fst (checkRateLimit (rateLimitMap freshServer) 7 (clientIP (post alForm)) 5 3600000) \<and>
   status (res (handler asciiLower noCredentials freshServer (post alForm) 7 [] [] Delivered)) = 500 \<and>
   rateLimitMap (after (handler asciiLower noCredentials freshServer (post alForm) 7 [] []
      Delivered)) = [js ''ip1'' \<mapsto> [7]] \<and>
   status (res (handler asciiLower gmailEnv freshServer (post alForm) 7 [] []
      (Rejected timedOut))) = 503 \<and>
   rateLimitMap (after (handler asciiLower gmailEnv freshServer (post alForm) 7 [] []
      (Rejected timedOut))) = [js ''ip1'' \<mapsto> [7]]"
proof -
  have c: "checkRateLimit (rateLimitMap freshServer) 7 (clientIP (post alForm)) 5 3600000 =
             (True, [js ''ip1'' \<mapsto> [7]])"
    by (simp add: freshServer_def clientIP_post first_call_allowed)
  then have f: "fst (checkRateLimit (rateLimitMap freshServer) 7 (clientIP (post alForm)) 5 3600000)"
    by simp
  have r: "recent 7 3600000 (timestamps (rateLimitMap freshServer) (clientIP (post alForm))) = []"
    by (simp add: recent_def timestamps_def freshServer_def)
  have s500:
    "status (res (handler asciiLower noCredentials freshServer (post alForm) 7 [] [] Delivered)) = 500"
    using validation_al c
    by (simp add: handler_def body_post Let_def noCredentials_def falsy_def)
  from handler_past_gate[OF body_post validation_al c gmailEnv_credentials,
         of "[]" "[]" "Rejected timedOut"]
  have s503:
    "status (res (handler asciiLower gmailEnv freshServer (post alForm) 7 [] []
      (Rejected timedOut))) = 503"
    by (auto simp: race_def catchError_def timedOut_def Let_def js_def)
  from gate_consumes_quota[OF body_post validation_al f, of noCredentials "[]" "[]" Delivered]
    gate_consumes_quota[OF body_post validation_al f, of gmailEnv "[]" "[]" "Rejected timedOut"]
    r s500 s503 f validation_al
  show ?thesis
    by (simp add: body_post clientIP_post freshServer_def)
qed

text \<open>
  Claim C1 says that a valid request under the rate limit is answered 503 when the timer
  of the race fires first. The error of the timer has no \<open>code\<close>, so the \<open>catch\<close> block
  falls through to its last answer: status 500, \<open>Failed to send email\<close>.
\<close>

theorem send_timeout_answered_500:
  "res (handler asciiLower gmailEnv freshServer (post alForm) 0 [] [] Pending) =
     \<lparr>status = 500, success = False,
      message = js ''Failed to send email. Please try again later.'', error = None\<rparr>"
proof -
  have c: "checkRateLimit (rateLimitMap freshServer) 0 (clientIP (post alForm)) 5 3600000 =
             (True, [js ''ip1'' \<mapsto> [0]])"
    by (simp add: freshServer_def clientIP_post first_call_allowed)
  have "catchError gmailEnv \<lparr>code = None, errmsg = js ''Email send timeout''\<rparr> =
     \<lparr>status = 500, success = False,
      message = js ''Failed to send email. Please try again later.'', error = None\<rparr>"
    by (simp add: catchError_def Let_def isDev_def gmailEnv_def js_def)
  with handler_past_gate[OF body_post validation_al c gmailEnv_credentials, of "[]" "[]" Pending]
  show ?thesis
    by (auto simp: race_def)
qed

subsection \<open>The bodies of the message\<close>

lemma escapeHtml_rendered: "escapeHtml s = rendered s"
proof -
  have "(\<lambda>c. if htmlClass c
             then (case map_of htmlMap c of Some e \<Rightarrow> e | None \<Rightarrow> js ''undefined'')
             else [c]) = entity"
    by (rule ext) (simp add: htmlClass_def htmlMap_def entity_def)
  then show ?thesis by (simp add: escapeHtml_def replaceAll_def rendered_def)
qed

lemma replaceAll_append: "replaceAll P f (a @ b) = replaceAll P f a @ replaceAll P f b"
  by (simp add: replaceAll_def)

lemma breaks_entity:
  "replaceAll (\<lambda>c. c = 0xA) (\<lambda>m. js ''<br>'') (entity c) =
     (if c = 0xA then js ''<br>'' else entity c)"
  by (simp add: entity_def replaceAll_def js_def)

lemma breaks_rendered:
  "replaceAll (\<lambda>c. c = 0xA) (\<lambda>m. js ''<br>'') (rendered s) = renderedLines s"
proof (induction s)
  case Nil
  show ?case by (simp add: rendered_def renderedLines_def replaceAll_def)
next
  case (Cons c s)
  have "rendered (c # s) = entity c @ rendered s" by (simp add: rendered_def)
  moreover have "renderedLines (c # s) =
      (if c = 0xA then js ''<br>'' else entity c) @ renderedLines s"
    by (simp add: renderedLines_def)
  ultimately show ?case
    by (simp only: replaceAll_append breaks_entity Cons.IH)
qed

lemma rendered_append: "rendered (a @ b) = rendered a @ rendered b"
  by (simp add: rendered_def)

lemma sublist_rendered: "sublist x s \<Longrightarrow> sublist (rendered x) (rendered s)"
proof -
  assume "sublist x s"
  then obtain p q where "s = p @ x @ q" by (auto simp: sublist_def)
  then have "rendered s = rendered p @ rendered x @ rendered q" by (simp add: rendered_append)
  then show ?thesis unfolding sublist_def by blast
qed

lemma sublist_joinLines: "l \<in> set ls \<Longrightarrow> sublist x l \<Longrightarrow> sublist x (joinLines ls)"
proof (induction ls rule: joinLines.induct)
  case 1
  then show ?case by simp
next
  case (2 l')
  then show ?case by simp
next
  case (3 l' k ks)
  show ?case
  proof (cases "l = l'")
    case True
    with "3.prems" obtain p q where "l' = p @ x @ q" by (auto simp: sublist_def)
    then have "joinLines (l' # k # ks) = p @ x @ (q @ [0xA] @ joinLines (k # ks))" by simp
    then show ?thesis unfolding sublist_def by blast
  next
    case False
    with "3.prems" have "sublist x (joinLines (k # ks))" by (intro "3.IH") auto
    then obtain p q where "joinLines (k # ks) = p @ x @ q" by (auto simp: sublist_def)
    then have "joinLines (l' # k # ks) = (l' @ [0xA] @ p) @ x @ q" by simp
    then show ?thesis unfolding sublist_def by blast
  qed
qed

lemma sublist_mid: "sublist x (a @ x @ b)"
  unfolding sublist_def by blast

lemma sublist_end: "sublist x (a @ x)"
  using sublist_mid[of x a "[]"] by simp

lemma sublist_chain: "sublist x y \<Longrightarrow> sublist y z \<Longrightarrow> sublist x z"
proof -
  assume "sublist x y" and "sublist y z"
  then obtain p q p' q' where "y = p @ x @ q" and "z = p' @ y @ q'"
    by (auto simp: sublist_def)
  then have "z = (p' @ p) @ x @ (q @ q')" by simp
  then show ?thesis unfolding sublist_def by blast
qed

lemma html_contains:
  "sublist n (htmlBody n e m d)" "sublist e (htmlBody n e m d)" "sublist m (htmlBody n e m d)"
proof -
  show "sublist n (htmlBody n e m d)"
    unfolding htmlBody_def
    by (rule sublist_joinLines[where l = "js ''              '' @ styled ''span'' ''color: #666;'' @ n @ js ''</span>''"])
       (simp_all add: sublist_mid[of n "js ''              '' @ styled ''span'' ''color: #666;''" "js ''</span>''", simplified])
  show "sublist e (htmlBody n e m d)"
    unfolding htmlBody_def
    by (rule sublist_joinLines[where l = "js ''              '' @ styled ''span'' ''color: #666;'' @ e @ js ''</span>''"])
       (simp_all add: sublist_mid[of e "js ''              '' @ styled ''span'' ''color: #666;''" "js ''</span>''", simplified])
  show "sublist m (htmlBody n e m d)"
    unfolding htmlBody_def
    by (rule sublist_joinLines[where l = "js ''              '' @ m"])
       (simp_all add: sublist_end)
qed

lemma text_contains:
  "sublist n (textBody n e m d)" "sublist e (textBody n e m d)" "sublist m (textBody n e m d)"
proof -
  show "sublist n (textBody n e m d)"
    unfolding textBody_def
    by (rule sublist_joinLines[where l = "js ''Name: '' @ n"]) (simp_all add: sublist_end)
  show "sublist e (textBody n e m d)"
    unfolding textBody_def
    by (rule sublist_joinLines[where l = "js ''Email: '' @ e"]) (simp_all add: sublist_end)
  show "sublist m (textBody n e m d)"
    unfolding textBody_def
    by (rule sublist_joinLines[where l = m]) simp_all
qed

lemma mailOptions_bodies:
  "html (mailOptions e n a m d1 d2) = htmlBody (rendered n) (rendered a) (renderedLines m) d1"
  "text_body (mailOptions e n a m d1 d2) = textBody n a m d2"
  by (simp_all add: mailOptions_def Let_def escapeHtml_rendered breaks_rendered)

lemma rendered_script: "rendered (js ''<script>'') = js ''&lt;script&gt;''"
  by (simp add: rendered_def entity_def js_def)

text \<open>
  Claim C7: in the message given to \<open>sendMail\<close>, the HTML body is the template filled
  with the name, the email and the message in which each of the five characters is
  replaced by its entity, the line feeds of the message by \<open><br>\<close>; the plain-text body
  is filled with the cleaned values as they are. A name containing \<open><script>\<close> shows
  as \<open>&lt;script&gt;\<close> in the HTML body and as \<open><script>\<close> in the plain-text body.
\<close>

theorem mail_bodies:
  assumes "sentMail (handler toLower e srv req now d1 d2 sr) = Some m"
  shows "\<exists>b. body req = Some b \<and>
           html m = htmlBody (rendered (cleanName b)) (rendered (cleanEmail toLower b))
                      (renderedLines (cleanMessage b)) d1 \<and>
           text_body m = textBody (cleanName b) (cleanEmail toLower b) (cleanMessage b) d2 \<and>
           sublist (rendered (cleanName b)) (html m) \<and>
           sublist (rendered (cleanEmail toLower b)) (html m) \<and>
           sublist (renderedLines (cleanMessage b)) (html m) \<and>
           sublist (cleanName b) (text_body m) \<and>
           sublist (cleanEmail toLower b) (text_body m) \<and>
           sublist (cleanMessage b) (text_body m) \<and>
           (sublist (js ''<script>'') (cleanName b) \<longrightarrow>
              sublist (js ''&lt;script&gt;'') (html m) \<and> sublist (js ''<script>'') (text_body m))"
proof -
  from sent_some[OF assms] obtain b where b: "body req = Some b"
    and m: "m = mailOptions e (cleanName b) (cleanEmail toLower b) (cleanMessage b) d1 d2"
    by blast
  have h: "html m = htmlBody (rendered (cleanName b)) (rendered (cleanEmail toLower b))
                      (renderedLines (cleanMessage b)) d1"
    and t: "text_body m = textBody (cleanName b) (cleanEmail toLower b) (cleanMessage b) d2"
    unfolding m by (rule mailOptions_bodies)+
  have hn: "sublist (rendered (cleanName b)) (html m)"
    and he: "sublist (rendered (cleanEmail toLower b)) (html m)"
    and hm: "sublist (renderedLines (cleanMessage b)) (html m)"
    unfolding h by (rule html_contains)+
  have tn: "sublist (cleanName b) (text_body m)"
    and te: "sublist (cleanEmail toLower b) (text_body m)"
    and tm: "sublist (cleanMessage b) (text_body m)"
    unfolding t by (rule text_contains)+
  have script: "sublist (js ''&lt;script&gt;'') (html m) \<and> sublist (js ''<script>'') (text_body m)"
    if s: "sublist (js ''<script>'') (cleanName b)"
  proof
    from sublist_rendered[OF s] have "sublist (js ''&lt;script&gt;'') (rendered (cleanName b))"
      by (simp only: rendered_script)
    then show "sublist (js ''&lt;script&gt;'') (html m)" using hn by (rule sublist_chain)
    from s tn show "sublist (js ''<script>'') (text_body m)" by (rule sublist_chain)
  qed
  from b h t hn he hm tn te tm script show ?thesis by blast
qed

lemma cleanName_script: "cleanName scriptForm = js ''<script>''"
  by (simp add: cleanName_def scriptForm_def string_ops)
lemma cleanEmail_script: "cleanEmail asciiLower scriptForm = js ''al@example.com''"
  by (simp add: cleanEmail_def scriptForm_def string_ops)
lemma cleanMessage_script: "cleanMessage scriptForm = twoLines"
proof -
  have "trim (sanitizeInput (JStr twoLines)) = js ''Line one'' @ [0xA] @ js ''Tom & Al''"
    by (simp add: twoLines_def string_ops)
  then show ?thesis by (simp add: cleanMessage_def scriptForm_def twoLines_def)
qed
lemma validation_script:
  "validation asciiLower (cleanName scriptForm) (cleanEmail asciiLower scriptForm)
     (cleanMessage scriptForm) = None"
  unfolding cleanName_script cleanEmail_script cleanMessage_script validation_def
  by (simp add: twoLines_def string_ops regex_ops Let_def)

lemma renderedLines_script: "renderedLines twoLines = js ''Line one<br>Tom &amp; Al''"
  by (simp add: twoLines_def renderedLines_def entity_def js_def)

text \<open>Claim C7 on the name \<open><script>\<close> and a message of two lines.\<close>

theorem mail_bodies_witness:
  "sentMail (handler asciiLower gmailEnv freshServer (post scriptForm) 0 [] [] Delivered) =
     Some (mailOptions gmailEnv (js ''<script>'') (js ''al@example.com'') twoLines [] []) \<and>
   sublist (js ''<script>'') (cleanName scriptForm) \<and>
   sublist (js ''&lt;script&gt;'')
     (html (mailOptions gmailEnv (js ''<script>'') (js ''al@example.com'') twoLines [] [])) \<and>
   sublist (js ''<script>'')
     (text_body (mailOptions gmailEnv (js ''<script>'') (js ''al@example.com'') twoLines [] [])) \<and>
   sublist (js ''Line one<br>Tom &amp; Al'')
     (html (mailOptions gmailEnv (js ''<script>'') (js ''al@example.com'') twoLines [] []))"
proof -
  let ?m = "mailOptions gmailEnv (js ''<script>'') (js ''al@example.com'') twoLines [] []"
  have c: "checkRateLimit (rateLimitMap freshServer) 0 (clientIP (post scriptForm)) 5 3600000 =
             (True, [js ''ip1'' \<mapsto> [0]])"
    by (simp add: freshServer_def clientIP_post first_call_allowed)
  from handler_past_gate[OF body_post validation_script c gmailEnv_credentials,
         of "[]" "[]" Delivered]
  have sent: "sentMail (handler asciiLower gmailEnv freshServer (post scriptForm) 0 [] []
                 Delivered) = Some ?m"
    by (auto simp: cleanName_script cleanEmail_script cleanMessage_script)
  have s: "sublist (js ''<script>'') (cleanName scriptForm)"
    by (simp add: cleanName_script)
  from mail_bodies[OF sent] obtain b where b: "body (post scriptForm) = Some b"
    and lines: "sublist (renderedLines (cleanMessage b)) (html ?m)"
    and script: "sublist (js ''<script>'') (cleanName b) \<longrightarrow>
              sublist (js ''&lt;script&gt;'') (html ?m) \<and> sublist (js ''<script>'') (text_body ?m)"
    by blast
  from b have "b = scriptForm" by (simp add: body_post)
  with s lines script sent show ?thesis
    by (simp add: cleanMessage_script renderedLines_script)
qed

end
